theory Spec2Isabelle
  imports Main "HOL-Library.AList" "HOL-Library.Sublist"
begin

section \<open>Values, stores and setting definitions\<close>

text \<open>
  The settings service of \<^verbatim>\<open>src/meltano/core/settings_service.py\<close> handles
  configuration values read from YAML, the environment and a database: \<^verbatim>\<open>None\<close>,
  booleans, integers, strings, lists and dictionaries. A dictionary is an association list
  in insertion order, as Python keeps it. Floating point values are left out.
\<close>

datatype pyval =
    PNone
  | PBool bool
  | PInt int
  | PStr string
  | PList "pyval list"
  | PDict "(string \<times> pyval) list"

text \<open>
  Python's \<^verbatim>\<open>==\<close> on these values: a boolean is an integer (\<^verbatim>\<open>True == 1\<close>),
  lists compare element by element, dictionaries compare key by key whatever their order.
\<close>

fun py_eq :: "pyval \<Rightarrow> pyval \<Rightarrow> bool" where
  "py_eq PNone PNone = True"
| "py_eq (PBool a) (PBool b) = (a = b)"
| "py_eq (PBool a) (PInt n) = ((if a then 1 else 0) = n)"
| "py_eq (PInt n) (PBool a) = (n = (if a then 1 else 0))"
| "py_eq (PInt m) (PInt n) = (m = n)"
| "py_eq (PStr s) (PStr t) = (s = t)"
| "py_eq (PList []) (PList []) = True"
| "py_eq (PList (x # xs)) (PList (y # ys)) = (py_eq x y \<and> py_eq (PList xs) (PList ys))"
| "py_eq (PDict xs) (PDict ys) =
     (length xs = length ys \<and>
      list_all (\<lambda>kv. case map_of ys (fst kv) of None \<Rightarrow> False | Some w \<Rightarrow> py_eq (snd kv) w) xs)"
| "py_eq _ _ = False"

text \<open>Python's truth value of a value, as tested by \<^verbatim>\<open>if value\<close>.\<close>

fun truthy :: "pyval \<Rightarrow> bool" where
  "truthy PNone = False"
| "truthy (PBool b) = b"
| "truthy (PInt n) = (n \<noteq> 0)"
| "truthy (PStr s) = (s \<noteq> [])"
| "truthy (PList xs) = (xs \<noteq> [])"
| "truthy (PDict kvs) = (kvs \<noteq> [])"

text \<open>The sentinel of line 18.\<close>

definition REDACTED_VALUE :: string where
  "REDACTED_VALUE = ''(redacted)''"

text \<open>
  Modelled from the spec: the enumeration \<^verbatim>\<open>SettingValueStore\<close> of
  \<^verbatim>\<open>settings_store.py\<close>, which is imported by the service but is not part of the
  sources at hand. The spec lists the concrete kinds in precedence order (explicit
  override, process environment, dotenv file, YAML project config, database), the plain
  default and the virtual kind \<^verbatim>\<open>AUTO\<close>; each kind owns a precedence rank and a kind
  overrides another when its rank is smaller.
\<close>

datatype store = CONFIG_OVERRIDE | ENV | DOTENV | MELTANO_YML | DB | DEFAULT | AUTO

fun rank :: "store \<Rightarrow> nat" where
  "rank CONFIG_OVERRIDE = 0"
| "rank ENV = 1"
| "rank DOTENV = 2"
| "rank MELTANO_YML = 3"
| "rank DB = 4"
| "rank DEFAULT = 5"
| "rank AUTO = 6"

definition overrides :: "store \<Rightarrow> store \<Rightarrow> bool" where
  "overrides s source = (rank s < rank source)"

text \<open>
  A manager is the adapter that \<^verbatim>\<open>store.manager(self, **kwargs)\<close> binds to one store.
  Its \<^verbatim>\<open>bulk\<close> flag only switches the caching inside the adapter and is not modelled.
\<close>

datatype manager = Manager store

text \<open>
  The fields of \<^verbatim>\<open>SettingDefinition\<close> that the service reads, and the items of the
  list returned by \<^verbatim>\<open>SettingDefinition.env_vars\<close>.
\<close>

record setting_def =
  name :: string
  aliases :: "string list"
  kind :: "string option"
  is_extra :: bool
  is_redacted :: bool

record env_var =
  key :: string
  negated :: bool

text \<open>
  Exceptions are values. \<^verbatim>\<open>RecursionError\<close> is what Python raises when the calls
  between \<^verbatim>\<open>get_with_metadata\<close>, \<^verbatim>\<open>as_env\<close> and \<^verbatim>\<open>config_with_metadata\<close>
  nest deeper than the interpreter allows.
\<close>

datatype error =
    SettingMissingError string
  | StoreNotSupportedError
  | ValueError
  | KeyError string
  | AttributeError
  | RecursionError

text \<open>
  A metadata envelope is a dictionary from strings to values of several kinds: plain
  values, stores and setting definitions (or \<^verbatim>\<open>None\<close>).
\<close>

datatype mval = MVal pyval | MStore store | MSetting "setting_def option"

type_synonym metadata = "string \<rightharpoonup> mval"

text \<open>
  The instance data of a \<^verbatim>\<open>SettingsService\<close>: the constructor argument
  \<^verbatim>\<open>show_hidden\<close>, the abstract properties a concrete service supplies
  (\<^verbatim>\<open>_definitions\<close>, \<^verbatim>\<open>_env_prefixes\<close>, \<^verbatim>\<open>_generic_env_prefix\<close>, and
  \<^verbatim>\<open>flat_meltano_yml_config\<close>, the flattened \<^verbatim>\<open>_meltano_yml_config\<close>), and the
  cache \<^verbatim>\<open>_setting_defs\<close>.
\<close>

record service =
  show_hidden :: bool
  declared_definitions :: "setting_def list"
  flat_meltano_yml_config :: "(string \<times> pyval) list"
  env_prefixes :: "string list"
  generic_env_prefix :: "string option"
  setting_defs :: "setting_def list option"

text \<open>
  The collaborators whose code is outside the service are parameters: the methods of
  \<^verbatim>\<open>SettingDefinition\<close> and the operations of the store managers, which read and write
  a state of the backing stores of type \<open>'st\<close>. A read leaves that state as it is.
\<close>

record 'st collab =
  cast_value :: "setting_def \<Rightarrow> pyval \<Rightarrow> error + pyval"
  stringify_value :: "setting_def \<Rightarrow> pyval \<Rightarrow> string"
  env_vars :: "setting_def \<Rightarrow> string list \<Rightarrow> env_var list"
  mgr_get :: "manager \<Rightarrow> string \<Rightarrow> setting_def option \<Rightarrow> (string \<times> string) list \<Rightarrow> 'st
                \<Rightarrow> error + pyval \<times> metadata"
  mgr_set :: "manager \<Rightarrow> string \<Rightarrow> string list \<Rightarrow> pyval \<Rightarrow> setting_def option \<Rightarrow> 'st
                \<Rightarrow> (error + metadata) \<times> 'st"
  mgr_unset :: "manager \<Rightarrow> string \<Rightarrow> string list \<Rightarrow> setting_def option \<Rightarrow> 'st
                \<Rightarrow> (error + metadata) \<times> 'st"
  mgr_reset :: "manager \<Rightarrow> 'st \<Rightarrow> (error + metadata) \<times> 'st"

section \<open>unredact\<close>

text \<open>
  Lines 93-99: the dictionary comprehension keeps, in order, the items whose value does
  not compare equal to the sentinel.
\<close>

definition unredact :: "(string \<times> pyval) list \<Rightarrow> (string \<times> pyval) list" where
  "unredact values = filter (\<lambda>(k, v). \<not> py_eq v (PStr REDACTED_VALUE)) values"

section \<open>The definition catalog\<close>

text \<open>
  Modelled from the spec: \<^verbatim>\<open>SettingDefinition.from_missing\<close>, a class method of
  \<^verbatim>\<open>setting_definition.py\<close>, which is not part of the sources at hand. The spec has it
  synthesize a definition for every key of the flattened YAML config that has no declared
  definition. A key has a declared definition when a declared definition carries it as
  its name. The synthesized definition is named after the key; the spec says nothing on its
  other fields, which are left empty here.
\<close>

definition from_missing :: "setting_def list \<Rightarrow> (string \<times> pyval) list \<Rightarrow> setting_def list" where
  "from_missing defs config =
     map (\<lambda>(k, v). \<lparr>name = k, aliases = [], kind = None, is_extra = False, is_redacted = False\<rparr>)
       (filter (\<lambda>(k, v). k \<notin> set (map name defs)) config)"

text \<open>
  Lines 321-343. \<^verbatim>\<open>extras\<close> is \<^verbatim>\<open>None\<close>, \<^verbatim>\<open>True\<close> or \<^verbatim>\<open>False\<close>. The function
  returns the list and the service with its cache filled.
\<close>

definition definitions :: "bool option \<Rightarrow> service \<Rightarrow> setting_def list \<times> service" where
  "definitions extras svc =
     (let cached = (case setting_defs svc of
                      None \<Rightarrow>
                        filter (\<lambda>s. kind s \<noteq> Some ''hidden'' \<or> show_hidden svc)
                          (declared_definitions svc)
                        @ from_missing (declared_definitions svc) (flat_meltano_yml_config svc)
                    | Some cache \<Rightarrow> cache);
          svc = svc\<lparr>setting_defs := Some cached\<rparr>
      in case extras of
           Some e \<Rightarrow> (filter (\<lambda>s. (e \<and> is_extra s) \<or> (\<not> e \<and> \<not> is_extra s)) cached, svc)
         | None \<Rightarrow> (cached, svc))"

text \<open>The merged catalog: what \<^verbatim>\<open>self.definitions()\<close> returns.\<close>

definition catalog :: "service \<Rightarrow> setting_def list" where
  "catalog svc = fst (definitions None svc)"


text \<open>Lines 345-351: the first definition that carries the name, or the missing error.\<close>

definition find_setting :: "string \<Rightarrow> service \<Rightarrow> (error + setting_def) \<times> service" where
  "find_setting nm svc =
     (case definitions None svc of
        (defs, svc) \<Rightarrow>
          (case List.find (\<lambda>s. name s = nm \<or> nm \<in> set (aliases s)) defs of
             Some s \<Rightarrow> (Inr s, svc)
           | None \<Rightarrow> (Inl (SettingMissingError nm), svc)))"

text \<open>Lines 353-358.\<close>

definition setting_env_vars :: "'st collab \<Rightarrow> service \<Rightarrow> setting_def \<Rightarrow> bool \<Rightarrow> env_var list" where
  "setting_env_vars X svc sd include_generic =
     (let prefixes = env_prefixes svc;
          prefixes = (case generic_env_prefix svc of
                        Some g \<Rightarrow> if include_generic \<and> g \<noteq> [] then prefixes @ [g] else prefixes
                      | None \<Rightarrow> prefixes)
      in env_vars X sd prefixes)"

section \<open>Reading: get_with_metadata, config_with_metadata, as_env\<close>

text \<open>
  Lines 229-232 (and 273-276 on the write path): the value is cast, and the value before
  the cast is recorded when the cast one does not compare equal to it.
\<close>

definition cast_step :: "'st collab \<Rightarrow> setting_def \<Rightarrow> pyval \<times> metadata \<Rightarrow> error + pyval \<times> metadata" where
  "cast_step X sd vm =
     (case vm of (value, metadata) \<Rightarrow>
        (case cast_value X sd value of
           Inl e \<Rightarrow> Inl e
         | Inr cast \<Rightarrow>
             if \<not> py_eq cast value then Inr (cast, metadata(''uncast_value'' \<mapsto> MVal value))
             else Inr (value, metadata)))"

text \<open>Lines 234-238.\<close>

definition redact_step :: "setting_def \<Rightarrow> bool \<Rightarrow> pyval \<times> metadata \<Rightarrow> pyval \<times> metadata" where
  "redact_step sd redacted vm =
     (case vm of (value, metadata) \<Rightarrow>
        if redacted \<and> truthy value \<and> is_redacted sd
        then (PStr REDACTED_VALUE, metadata(''redacted'' \<mapsto> MVal (PBool True)))
        else (value, metadata))"

text \<open>
  Lines 215-223, the inner loop of the object assembly over the items of one
  \<^verbatim>\<open>flat_config_metadata\<close>, on the pair of \<^verbatim>\<open>object_value\<close> and \<^verbatim>\<open>object_source\<close>.
\<close>

fun nested_loop ::
  "(string \<times> metadata) list \<Rightarrow> (string \<times> pyval) list \<times> store
     \<Rightarrow> error + (string \<times> pyval) list \<times> store" where
  "nested_loop [] acc = Inr acc"
| "nested_loop ((nested_key, config_metadata) # rest) (object_value, object_source) =
     (if nested_key \<in> fst ` set object_value
      then nested_loop rest (object_value, object_source)
      else (case config_metadata ''value'' of
              Some (MVal v) \<Rightarrow>
                (case config_metadata ''source'' of
                   Some (MStore nested_source) \<Rightarrow>
                     nested_loop rest
                       (AList.update nested_key v object_value,
                        if overrides nested_source object_source then nested_source
                        else object_source)
                 | Some _ \<Rightarrow> Inl AttributeError
                 | None \<Rightarrow> Inl (KeyError ''source''))
            | _ \<Rightarrow> Inl (KeyError ''value'')))"

text \<open>Lines 157-161, the loop over the environment variables of one setting.\<close>

fun env_vars_loop :: "env_var list \<Rightarrow> string \<Rightarrow> (string \<times> string) list \<Rightarrow> (string \<times> string) list" where
  "env_vars_loop [] value env = env"
| "env_vars_loop (ev # evs) value env =
     (if negated ev then env_vars_loop evs value env
      else env_vars_loop evs value (AList.update (key ev) value env))"

text \<open>Lines 148-163, the loop of \<^verbatim>\<open>as_env\<close> over the items of \<^verbatim>\<open>full_config\<close>.\<close>

fun as_env_loop ::
  "'st collab \<Rightarrow> service \<Rightarrow> (string \<times> metadata) list \<Rightarrow> (string \<times> string) list
     \<Rightarrow> error + (string \<times> string) list" where
  "as_env_loop X svc [] env = Inr env"
| "as_env_loop X svc ((k, config) # rest) env =
     (case config ''value'' of
        Some (MVal value) \<Rightarrow>
          if value = PNone then as_env_loop X svc rest env
          else (case config ''setting'' of
                  Some (MSetting (Some setting_def)) \<Rightarrow>
                    as_env_loop X svc rest
                      (env_vars_loop (setting_env_vars X svc setting_def True)
                         (stringify_value X setting_def value) env)
                | Some _ \<Rightarrow> Inl AttributeError
                | None \<Rightarrow> Inl (KeyError ''setting''))
      | _ \<Rightarrow> Inl (KeyError ''value''))"

text \<open>
  \<^verbatim>\<open>get_with_metadata\<close>, \<^verbatim>\<open>config_with_metadata\<close> and \<^verbatim>\<open>as_env\<close> call each other.
  Each is first written over a parameter \<open>get\<close> that stands for the method
  \<^verbatim>\<open>self.get_with_metadata\<close> it calls; the recursion is closed below. The keyword
  arguments \<^verbatim>\<open>**kwargs\<close> carry \<^verbatim>\<open>redacted\<close> from \<^verbatim>\<open>as_env\<close> and
  \<^verbatim>\<open>config_with_metadata\<close> to \<^verbatim>\<open>get_with_metadata\<close>; what else they carry goes to the
  manager's constructor and is not modelled. Every function returns the service beside its
  result, since looking a definition up fills the cache.
\<close>

type_synonym getter =
  "string \<Rightarrow> bool \<Rightarrow> store \<Rightarrow> manager option \<Rightarrow> setting_def option \<Rightarrow> service
     \<Rightarrow> (error + pyval \<times> metadata) \<times> service"

text \<open>Lines 115-131, the loop of \<^verbatim>\<open>config_with_metadata\<close> over the definitions.\<close>

fun config_loop ::
  "getter \<Rightarrow> string option \<Rightarrow> bool \<Rightarrow> store \<Rightarrow> manager \<Rightarrow> setting_def list
     \<Rightarrow> (string \<times> metadata) list \<Rightarrow> service \<Rightarrow> (error + (string \<times> metadata) list) \<times> service"
where
  "config_loop get pfx redacted source source_manager [] config svc = (Inr config, svc)"
| "config_loop get pfx redacted source source_manager (setting_def # defs) config svc =
     (if (case pfx of Some p \<Rightarrow> p \<noteq> [] \<and> \<not> prefix p (name setting_def) | None \<Rightarrow> False)
      then config_loop get pfx redacted source source_manager defs config svc
      else (case get (name setting_def) redacted source (Some source_manager)
                   (Some setting_def) svc of
              (Inl e, svc) \<Rightarrow> (Inl e, svc)
            | (Inr (value, metadata), svc) \<Rightarrow>
                (let nm = (case pfx of
                             Some p \<Rightarrow> if p \<noteq> [] then drop (length p) (name setting_def)
                                       else name setting_def
                           | None \<Rightarrow> name setting_def)
                 in config_loop get pfx redacted source source_manager defs
                      (AList.update nm (metadata(''value'' \<mapsto> MVal value)) config) svc)))"

text \<open>Lines 101-133.\<close>

definition config_with_metadata_via ::
  "getter \<Rightarrow> string option \<Rightarrow> bool option \<Rightarrow> bool \<Rightarrow> store \<Rightarrow> manager option \<Rightarrow> service
     \<Rightarrow> (error + (string \<times> metadata) list) \<times> service" where
  "config_with_metadata_via get pfx extras redacted source source_manager svc =
     (let source_manager = (case source_manager of Some m \<Rightarrow> m | None \<Rightarrow> Manager source)
      in case definitions extras svc of
           (defs, svc) \<Rightarrow> config_loop get pfx redacted source source_manager defs [] svc)"

text \<open>Lines 145-163.\<close>

definition as_env_via ::
  "'st collab \<Rightarrow> getter \<Rightarrow> string option \<Rightarrow> bool option \<Rightarrow> bool \<Rightarrow> store \<Rightarrow> manager option
     \<Rightarrow> service \<Rightarrow> (error + (string \<times> string) list) \<times> service" where
  "as_env_via X get pfx extras redacted source source_manager svc =
     (case config_with_metadata_via get pfx extras redacted source source_manager svc of
        (Inl e, svc) \<Rightarrow> (Inl e, svc)
      | (Inr full_config, svc) \<Rightarrow> (as_env_loop X svc full_config [], svc))"

text \<open>
  Lines 208-223, the loop of the object assembly over the definition's name and aliases.
\<close>

fun object_loop ::
  "getter \<Rightarrow> bool \<Rightarrow> store \<Rightarrow> manager option \<Rightarrow> string list
     \<Rightarrow> (string \<times> pyval) list \<times> store \<Rightarrow> service
     \<Rightarrow> (error + (string \<times> pyval) list \<times> store) \<times> service"
where
  "object_loop get redacted source source_manager [] acc svc = (Inr acc, svc)"
| "object_loop get redacted source source_manager (setting_key # keys) acc svc =
     (case config_with_metadata_via get (Some (setting_key @ ''.'')) None redacted source
             source_manager svc of
        (Inl e, svc) \<Rightarrow> (Inl e, svc)
      | (Inr flat_config_metadata, svc) \<Rightarrow>
          (case nested_loop flat_config_metadata acc of
             Inl e \<Rightarrow> (Inl e, svc)
           | Inr acc \<Rightarrow> object_loop get redacted source source_manager keys acc svc))"

text \<open>
  Lines 174-177: the definition passed by the caller, or the one found under the name;
  a missing setting leaves it \<^verbatim>\<open>None\<close>.
\<close>

definition resolve_definition ::
  "string \<Rightarrow> setting_def option \<Rightarrow> service \<Rightarrow> setting_def option \<times> service" where
  "resolve_definition nm setting_def svc =
     (case setting_def of
        Some sd \<Rightarrow> (Some sd, svc)
      | None \<Rightarrow>
          (case find_setting nm svc of
             (Inr sd, svc) \<Rightarrow> (Some sd, svc)
           | (Inl e, svc) \<Rightarrow> (None, svc)))"

text \<open>Line 184, the metadata before the manager adds its own.\<close>

definition initial_metadata :: "string \<Rightarrow> store \<Rightarrow> setting_def option \<Rightarrow> metadata" where
  "initial_metadata nm source setting_def =
     [''name'' \<mapsto> MVal (PStr nm), ''source'' \<mapsto> MStore source,
      ''setting'' \<mapsto> MSetting setting_def]"

text \<open>
  Lines 174-227 of \<^verbatim>\<open>get_with_metadata\<close>: the definition is looked up, the manager is
  asked for the value and an object is assembled. The result is the definition, and the
  value and the metadata as they stand before the cast of line 229.
\<close>

definition lookup_value ::
  "'st collab \<Rightarrow> 'st \<Rightarrow> getter \<Rightarrow> string \<Rightarrow> bool \<Rightarrow> store \<Rightarrow> manager option
     \<Rightarrow> setting_def option \<Rightarrow> service
     \<Rightarrow> (error + setting_def option \<times> pyval \<times> metadata) \<times> service" where
  "lookup_value X st get nm redacted source source_manager setting_def svc =
     (case resolve_definition nm setting_def svc of
        (setting_def, svc) \<Rightarrow>
          (let nm = (case setting_def of Some sd \<Rightarrow> name sd | None \<Rightarrow> nm);
               metadata = initial_metadata nm source setting_def
           in case (if (case setting_def of Some sd \<Rightarrow> is_extra sd | None \<Rightarrow> False)
                    then as_env_via X get None (Some False) redacted source source_manager svc
                    else (Inr [], svc)) of
                (Inl e, svc) \<Rightarrow> (Inl e, svc)
              | (Inr expandible_env, svc) \<Rightarrow>
                  (case mgr_get X (case source_manager of Some m \<Rightarrow> m | None \<Rightarrow> Manager source)
                          nm setting_def expandible_env st of
                     Inl e \<Rightarrow> (Inl e, svc)
                   | Inr (value, get_metadata) \<Rightarrow>
                       (let metadata = metadata ++ get_metadata
                        in case setting_def of
                             None \<Rightarrow> (Inr (None, value, metadata), svc)
                           | Some sd \<Rightarrow>
                               if kind sd = Some ''object''
                                  \<and> metadata ''source'' = Some (MStore DEFAULT)
                               then (case object_loop get redacted source source_manager
                                            (name sd # aliases sd) ([], DEFAULT) svc of
                                       (Inl e, svc) \<Rightarrow> (Inl e, svc)
                                     | (Inr (object_value, object_source), svc) \<Rightarrow>
                                         if object_value \<noteq> []
                                         then (Inr (Some sd, PDict object_value,
                                                    metadata(''source'' \<mapsto> MStore object_source)),
                                               svc)
                                         else (Inr (Some sd, value, metadata), svc))
                               else (Inr (Some sd, value, metadata), svc)))))"

text \<open>
  Lines 165-241: the lookup, then for a setting with a definition the cast of lines
  229-232 and the redaction of lines 234-238.
\<close>

definition get_with_metadata_via ::
  "'st collab \<Rightarrow> 'st \<Rightarrow> getter \<Rightarrow> getter" where
  "get_with_metadata_via X st get nm redacted source source_manager setting_def svc =
     (case lookup_value X st get nm redacted source source_manager setting_def svc of
        (Inl e, svc) \<Rightarrow> (Inl e, svc)
      | (Inr (None, value, metadata), svc) \<Rightarrow> (Inr (value, metadata), svc)
      | (Inr (Some sd, value, metadata), svc) \<Rightarrow>
          (case cast_step X sd (value, metadata) of
             Inl e \<Rightarrow> (Inl e, svc)
           | Inr vm \<Rightarrow> (Inr (redact_step sd redacted vm), svc)))"

text \<open>
  The recursion is closed over the depth of the calls of \<^verbatim>\<open>get_with_metadata\<close> inside
  each other: with no depth left the call raises \<^verbatim>\<open>RecursionError\<close>, as the interpreter
  does when the frames run out.
\<close>

primrec get_with_metadata :: "nat \<Rightarrow> 'st collab \<Rightarrow> 'st \<Rightarrow> getter" where
  "get_with_metadata 0 X st =
     (\<lambda>nm redacted source source_manager setting_def svc. (Inl RecursionError, svc))"
| "get_with_metadata (Suc n) X st = get_with_metadata_via X st (get_with_metadata n X st)"

definition config_with_metadata ::
  "nat \<Rightarrow> 'st collab \<Rightarrow> 'st \<Rightarrow> string option \<Rightarrow> bool option \<Rightarrow> bool \<Rightarrow> store \<Rightarrow> manager option
     \<Rightarrow> service \<Rightarrow> (error + (string \<times> metadata) list) \<times> service" where
  "config_with_metadata n X st = config_with_metadata_via (get_with_metadata n X st)"

definition as_env ::
  "nat \<Rightarrow> 'st collab \<Rightarrow> 'st \<Rightarrow> string option \<Rightarrow> bool option \<Rightarrow> bool \<Rightarrow> store \<Rightarrow> manager option
     \<Rightarrow> service \<Rightarrow> (error + (string \<times> string) list) \<times> service" where
  "as_env n X st = as_env_via X (get_with_metadata n X st)"


section \<open>Writing: set_with_metadata, unset, reset\<close>

text \<open>
  The \<^verbatim>\<open>path\<close> argument is a string or a list of strings (lines 256-257), joined with
  dots into the name (line 259).
\<close>

datatype path_arg = PathStr string | PathList "string list"

fun join :: "string \<Rightarrow> string list \<Rightarrow> string" where
  "join sep [] = []"
| "join sep [x] = x"
| "join sep (x # y # ys) = x @ sep @ join sep (y # ys)"

text \<open>
  The \<^verbatim>\<open>store\<close> argument of the three writing methods is optional; left out
  (\<open>None\<close> here) it is \<^verbatim>\<open>SettingValueStore.AUTO\<close>, the default of lines 252, 289
  and 311.
\<close>

definition store_or_default :: "store option \<Rightarrow> store" where
  "store_or_default store_arg = (case store_arg of Some s \<Rightarrow> s | None \<Rightarrow> AUTO)"

text \<open>
  Lines 251-283. The result is the returned pair or the exception, the service, and the
  state of the backing stores.
\<close>

definition set_with_metadata ::
  "'st collab \<Rightarrow> path_arg \<Rightarrow> pyval \<Rightarrow> store option \<Rightarrow> service \<Rightarrow> 'st
     \<Rightarrow> (error + pyval \<times> metadata) \<times> service \<times> 'st" where
  "set_with_metadata X path_arg value store_arg svc st =
     (let store = store_or_default store_arg;
          path = (case path_arg of PathStr s \<Rightarrow> [s] | PathList p \<Rightarrow> p);
          nm = join ''.'' path
      in case find_setting nm svc of
           (found, svc) \<Rightarrow>
             (let setting_def = (case found of Inr sd \<Rightarrow> Some sd | Inl e \<Rightarrow> None);
                  metadata = [''name'' \<mapsto> MVal (PStr nm),
                              ''path'' \<mapsto> MVal (PList (map PStr path)),
                              ''store'' \<mapsto> MStore store,
                              ''setting'' \<mapsto> MSetting setting_def]
              in if py_eq value (PStr REDACTED_VALUE)
                 then (Inr (PNone, metadata(''redacted'' \<mapsto> MVal (PBool True))), svc, st)
                 else (case (case setting_def of
                               Some sd \<Rightarrow> cast_step X sd (value, metadata)
                             | None \<Rightarrow> Inr (value, metadata)) of
                         Inl e \<Rightarrow> (Inl e, svc, st)
                       | Inr (value, metadata) \<Rightarrow>
                           (case mgr_set X (Manager store) nm path value setting_def st of
                              (Inl e, st) \<Rightarrow> (Inl e, svc, st)
                            | (Inr set_metadata, st) \<Rightarrow>
                                (Inr (value, metadata ++ set_metadata), svc, st)))))"



section \<open>Construction\<close>

text \<open>
  Lines 24-41. Python evaluates the default values \<^verbatim>\<open>{}\<close> of \<^verbatim>\<open>env_override\<close> and
  \<^verbatim>\<open>config_override\<close> once, when the \<^verbatim>\<open>def\<close> statement runs, and the constructor
  stores the dictionary it is given without copying it. Dictionaries are therefore objects
  in a heap, and an instance holds their addresses.
\<close>

type_synonym addr = nat

record heap =
  dicts :: "addr \<rightharpoonup> (string \<times> string) list"
  next_addr :: addr

definition new_dict :: "heap \<Rightarrow> addr \<times> heap" where
  "new_dict h =
     (next_addr h, h\<lparr>dicts := (dicts h)(next_addr h \<mapsto> []), next_addr := Suc (next_addr h)\<rparr>)"

definition dict_setitem :: "addr \<Rightarrow> string \<Rightarrow> string \<Rightarrow> heap \<Rightarrow> heap" where
  "dict_setitem a k v h =
     (case dicts h a of
        Some d \<Rightarrow> h\<lparr>dicts := (dicts h)(a \<mapsto> AList.update k v d)\<rparr>
      | None \<Rightarrow> h)"

definition dict_get :: "addr \<Rightarrow> string \<Rightarrow> heap \<Rightarrow> string option" where
  "dict_get a k h = (case dicts h a of Some d \<Rightarrow> map_of d k | None \<Rightarrow> None)"

text \<open>
  The defaults of the constructor, created when the class body is executed, and the
  attributes of an instance that hold the project and the two override mappings.
\<close>

record init_defaults =
  default_env_override :: addr
  default_config_override :: addr

definition define_init :: "heap \<Rightarrow> init_defaults \<times> heap" where
  "define_init h =
     (case new_dict h of
        (a, h) \<Rightarrow>
          (case new_dict h of
             (b, h) \<Rightarrow> (\<lparr>default_env_override = a, default_config_override = b\<rparr>, h)))"

record settings_service =
  project :: string
  env_override :: addr
  config_override :: addr

definition init :: "init_defaults \<Rightarrow> string \<Rightarrow> addr option \<Rightarrow> addr option \<Rightarrow> settings_service" where
  "init defaults project_arg env_override_arg config_override_arg =
     \<lparr>project = project_arg,
      env_override = (case env_override_arg of
                         Some a \<Rightarrow> a
                       | None \<Rightarrow> default_env_override defaults),
      config_override = (case config_override_arg of
                            Some a \<Rightarrow> a
                          | None \<Rightarrow> default_config_override defaults)\<rparr>"

section \<open>Example inputs\<close>

text \<open>
  A service with no declared definition and an empty YAML config, and collaborators whose
  managers append the manager that was asked to write to the state of the stores, which
  is the list of the managers invoked so far.
\<close>

definition empty_service :: service where
  "empty_service =
     \<lparr>show_hidden = True, declared_definitions = [], flat_meltano_yml_config = [],
      env_prefixes = [], generic_env_prefix = None, setting_defs = None\<rparr>"

definition log_collab :: "manager list collab" where
  "log_collab =
     \<lparr>cast_value = (\<lambda>sd v. Inr v),
      stringify_value = (\<lambda>sd v. []),
      env_vars = (\<lambda>sd ps. []),
      mgr_get = (\<lambda>m nm sd env st. Inr (PNone, Map.empty)),
      mgr_set = (\<lambda>m nm p v sd st. (Inr Map.empty, st @ [m])),
      mgr_unset = (\<lambda>m nm p sd st. (Inr Map.empty, st @ [m])),
      mgr_reset = (\<lambda>m st. (Inr Map.empty, st @ [m]))\<rparr>"

text \<open>
  A service with four declared definitions, one of them hidden and one an extra, and a
  YAML config with a key that has no declared definition.
\<close>

definition two_service :: service where
  "two_service =
     \<lparr>show_hidden = False,
      declared_definitions =
        [\<lparr>name = ''username'', aliases = [''user'', ''login''], kind = Some ''string'',
          is_extra = False, is_redacted = False\<rparr>,
         \<lparr>name = ''password'', aliases = [''pass''], kind = Some ''password'',
          is_extra = False, is_redacted = True\<rparr>,
         \<lparr>name = ''secret_flag'', aliases = [], kind = Some ''hidden'',
          is_extra = False, is_redacted = False\<rparr>,
         \<lparr>name = ''_load_schema'', aliases = [], kind = Some ''string'',
          is_extra = True, is_redacted = False\<rparr>],
      flat_meltano_yml_config = [(''username'', PStr ''me''), (''custom.key'', PInt 1),
                                 (''secret_flag'', PBool True)],
      env_prefixes = [''TAP''], generic_env_prefix = None, setting_defs = None\<rparr>"

text \<open>
  A service of an extractor with a redacted boolean setting and an object setting, the
  content of its YAML store, and collaborators that read and write that store: the manager
  of \<^verbatim>\<open>AUTO\<close> finds a value in the YAML store or falls back on the default, and a
  boolean setting casts a string to a boolean.
\<close>

definition tap_yml :: "(string \<times> pyval) list" where
  "tap_yml = [(''username'', PStr ''me''), (''secure'', PStr ''true''),
              (''db.host'', PStr ''h1''), (''db.port'', PInt 5432),
              (''database.host'', PStr ''h2''), (''database.name'', PStr ''main'')]"

definition tap_service :: service where
  "tap_service =
     \<lparr>show_hidden = True,
      declared_definitions =
        [\<lparr>name = ''username'', aliases = [''user''], kind = Some ''string'',
          is_extra = False, is_redacted = False\<rparr>,
         \<lparr>name = ''password'', aliases = [], kind = Some ''password'',
          is_extra = False, is_redacted = True\<rparr>,
         \<lparr>name = ''secure'', aliases = [], kind = Some ''boolean'',
          is_extra = False, is_redacted = True\<rparr>,
         \<lparr>name = ''db'', aliases = [''database''], kind = Some ''object'',
          is_extra = False, is_redacted = False\<rparr>],
      flat_meltano_yml_config = tap_yml,
      env_prefixes = [''TAP''], generic_env_prefix = Some ''GENERIC'', setting_defs = None\<rparr>"

definition yml_collab :: "(string \<times> pyval) list collab" where
  "yml_collab =
     \<lparr>cast_value = (\<lambda>sd v. case v of
                        PStr s \<Rightarrow> if kind sd = Some ''boolean''
                                  then Inr (PBool (s \<in> set [''1'', ''true'', ''yes'', ''on'']))
                                  else Inr v
                      | _ \<Rightarrow> Inr v),
      stringify_value = (\<lambda>sd v. case v of
                        PStr s \<Rightarrow> s
                      | PBool b \<Rightarrow> if b then ''true'' else ''false''
                      | _ \<Rightarrow> ''json''),
      env_vars = (\<lambda>sd prefixes.
                    map (\<lambda>p. \<lparr>key = p @ ''_'' @ name sd, negated = False\<rparr>) prefixes
                    @ (if kind sd = Some ''boolean''
                       then map (\<lambda>p. \<lparr>key = p @ ''_NO_'' @ name sd, negated = True\<rparr>) prefixes
                       else [])),
      mgr_get = (\<lambda>m nm sd env st.
                   if m = Manager AUTO \<or> m = Manager MELTANO_YML
                   then (case map_of st nm of
                           Some v \<Rightarrow> Inr (v, [''source'' \<mapsto> MStore MELTANO_YML])
                         | None \<Rightarrow> if m = Manager AUTO
                                   then Inr (PNone, [''source'' \<mapsto> MStore DEFAULT])
                                   else Inr (PNone, Map.empty))
                   else Inl StoreNotSupportedError),
      mgr_set = (\<lambda>m nm p v sd st.
                   if m = Manager MELTANO_YML then (Inr Map.empty, AList.update nm v st)
                   else (Inl StoreNotSupportedError, st)),
      mgr_unset = (\<lambda>m nm p sd st.
                   if m = Manager MELTANO_YML then (Inr Map.empty, AList.delete nm st)
                   else (Inl StoreNotSupportedError, st)),
      mgr_reset = (\<lambda>m st.
                   if m = Manager MELTANO_YML then (Inr Map.empty, [])
                   else (Inl StoreNotSupportedError, st))\<rparr>"



text \<open>The heap before the class body is executed.\<close>

definition empty_heap :: heap where
  "empty_heap = \<lparr>dicts = Map.empty, next_addr = 0\<rparr>"

section \<open>Auxiliary facts\<close>

lemma py_eq_PStr: "py_eq v (PStr s) \<longleftrightarrow> v = PStr s"
  by (cases v) auto

lemma unredact_filter: "unredact vals = filter (\<lambda>kv. snd kv \<noteq> PStr REDACTED_VALUE) vals"
  by (simp add: unredact_def py_eq_PStr case_prod_unfold)



lemma find_setting_catalog:
  "find_setting nm svc =
     (case List.find (\<lambda>s. name s = nm \<or> nm \<in> set (aliases s)) (catalog svc) of
        Some s \<Rightarrow> (Inr s, snd (definitions None svc))
      | None \<Rightarrow> (Inl (SettingMissingError nm), snd (definitions None svc)))"
  by (simp add: find_setting_def catalog_def split: prod.splits option.splits)

lemma catalog_two_service: "catalog two_service =
        [\<lparr>name = ''username'', aliases = [''user'', ''login''], kind = Some ''string'',
          is_extra = False, is_redacted = False\<rparr>,
         \<lparr>name = ''password'', aliases = [''pass''], kind = Some ''password'',
          is_extra = False, is_redacted = True\<rparr>,
         \<lparr>name = ''_load_schema'', aliases = [], kind = Some ''string'',
          is_extra = True, is_redacted = False\<rparr>,
         \<lparr>name = ''custom.key'', aliases = [], kind = None,
          is_extra = False, is_redacted = False\<rparr>]"
  by (simp add: catalog_def definitions_def two_service_def from_missing_def Let_def)

lemma definitions_catalog:
  "definitions extras svc =
     (case extras of
        Some e \<Rightarrow> filter (\<lambda>s. (e \<and> is_extra s) \<or> (\<not> e \<and> \<not> is_extra s)) (catalog svc)
      | None \<Rightarrow> catalog svc,
      svc\<lparr>setting_defs := Some (catalog svc)\<rparr>)"
  by (simp add: definitions_def catalog_def Let_def split: option.splits)

lemma catalog_cases:
  "catalog svc =
     (case setting_defs svc of
        None \<Rightarrow> filter (\<lambda>s. kind s \<noteq> Some ''hidden'' \<or> show_hidden svc) (declared_definitions svc)
                @ from_missing (declared_definitions svc) (flat_meltano_yml_config svc)
      | Some cache \<Rightarrow> cache)"
  by (simp add: definitions_def catalog_def Let_def split: option.splits)

lemma result_fst: "fst r = x \<Longrightarrow> r = (x, snd r)"
  by (cases r) simp



lemma set_update_subset: "set (AList.update k v al) \<subseteq> insert (k, v) (set al)"
  by (induction al) auto

lemma env_vars_loop_entries:
  "kv \<in> set (env_vars_loop evs s env) \<Longrightarrow>
     kv \<in> set env \<or> (snd kv = s \<and> (\<exists>ev \<in> set evs. \<not> negated ev \<and> key ev = fst kv))"
proof (induction evs arbitrary: env)
  case Nil
  then show ?case by simp
next
  case (Cons ev evs)
  show ?case
  proof (cases "negated ev")
    case True
    with Cons show ?thesis by auto
  next
    case False
    with Cons.prems have "kv \<in> set (env_vars_loop evs s (AList.update (key ev) s env))" by simp
    from Cons.IH [OF this] show ?thesis
      using set_update_subset [of "key ev" s env] False by auto
  qed
qed

lemma env_vars_loop_keys:
  "fst ` set (env_vars_loop evs s env)
     = fst ` set env \<union> {key ev | ev. ev \<in> set evs \<and> \<not> negated ev}"
  by (induction evs arbitrary: env) (auto simp: dom_update)

lemma env_vars_loop_distinct:
  "distinct (map fst env) \<Longrightarrow> distinct (map fst (env_vars_loop evs s env))"
  by (induction evs arbitrary: env) (auto simp: distinct_update)

lemma as_env_loop_entries:
  "as_env_loop X svc cfg env = Inr env' \<Longrightarrow> kv \<in> set env' \<Longrightarrow>
     kv \<in> set env
     \<or> (\<exists>c \<in> set cfg. \<exists>v sd ev.
           snd c ''value'' = Some (MVal v) \<and> v \<noteq> PNone
           \<and> snd c ''setting'' = Some (MSetting (Some sd))
           \<and> ev \<in> set (setting_env_vars X svc sd True) \<and> \<not> negated ev
           \<and> key ev = fst kv \<and> snd kv = stringify_value X sd v)"
proof (induction cfg arbitrary: env)
  case Nil
  then show ?case by simp
next
  case (Cons c cfg)
  obtain k config where c: "c = (k, config)" by (cases c)
  from Cons.prems(1) obtain v where v: "config ''value'' = Some (MVal v)"
    by (auto simp: c split: option.splits mval.splits)
  show ?case
  proof (cases "v = PNone")
    case True
    with Cons.prems v have "as_env_loop X svc cfg env = Inr env'" by (simp add: c)
    from Cons.IH [OF this Cons.prems(2)] show ?thesis by auto
  next
    case False
    with Cons.prems(1) v obtain sd where sd: "config ''setting'' = Some (MSetting (Some sd))"
      by (auto simp: c split: option.splits mval.splits)
    with Cons.prems(1) v False have
      "as_env_loop X svc cfg
         (env_vars_loop (setting_env_vars X svc sd True) (stringify_value X sd v) env) = Inr env'"
      by (simp add: c)
    from Cons.IH [OF this Cons.prems(2)] show ?thesis
    proof
      assume "kv \<in> set (env_vars_loop (setting_env_vars X svc sd True) (stringify_value X sd v) env)"
      from env_vars_loop_entries [OF this] show ?thesis
        using v sd False by (auto simp: c)
    next
      assume "\<exists>c \<in> set cfg. \<exists>v sd ev.
           snd c ''value'' = Some (MVal v) \<and> v \<noteq> PNone
           \<and> snd c ''setting'' = Some (MSetting (Some sd))
           \<and> ev \<in> set (setting_env_vars X svc sd True) \<and> \<not> negated ev
           \<and> key ev = fst kv \<and> snd kv = stringify_value X sd v"
      then show ?thesis by auto
    qed
  qed
qed

lemma as_env_loop_mono:
  "as_env_loop X svc cfg env = Inr env' \<Longrightarrow> fst ` set env \<subseteq> fst ` set env'"
proof (induction cfg arbitrary: env)
  case Nil
  then show ?case by simp
next
  case (Cons c cfg)
  obtain k config where c: "c = (k, config)" by (cases c)
  from Cons.prems(1) obtain v where v: "config ''value'' = Some (MVal v)"
    by (auto simp: c split: option.splits mval.splits)
  show ?case
  proof (cases "v = PNone")
    case True
    with Cons.prems v have "as_env_loop X svc cfg env = Inr env'" by (simp add: c)
    from Cons.IH [OF this] show ?thesis .
  next
    case False
    with Cons.prems(1) v obtain sd where sd: "config ''setting'' = Some (MSetting (Some sd))"
      by (auto simp: c split: option.splits mval.splits)
    with Cons.prems(1) v False have
      "as_env_loop X svc cfg
         (env_vars_loop (setting_env_vars X svc sd True) (stringify_value X sd v) env) = Inr env'"
      by (simp add: c)
    from Cons.IH [OF this] show ?thesis
      by (auto simp: env_vars_loop_keys)
  qed
qed

lemma as_env_loop_complete:
  "as_env_loop X svc cfg env = Inr env' \<Longrightarrow> c \<in> set cfg \<Longrightarrow>
     snd c ''value'' = Some (MVal v) \<Longrightarrow> v \<noteq> PNone \<Longrightarrow>
     snd c ''setting'' = Some (MSetting (Some sd)) \<Longrightarrow>
     ev \<in> set (setting_env_vars X svc sd True) \<Longrightarrow> \<not> negated ev \<Longrightarrow>
     key ev \<in> fst ` set env'"
proof (induction cfg arbitrary: env)
  case Nil
  then show ?case by simp
next
  case (Cons c' cfg)
  obtain k config where c': "c' = (k, config)" by (cases c')
  from Cons.prems(1) obtain v' where v': "config ''value'' = Some (MVal v')"
    by (auto simp: c' split: option.splits mval.splits)
  show ?case
  proof (cases "v' = PNone")
    case True
    with Cons.prems v' have loop: "as_env_loop X svc cfg env = Inr env'" by (simp add: c')
    from Cons.prems(2) True v' Cons.prems(3,4) have "c \<in> set cfg" by (auto simp: c')
    from Cons.IH [OF loop this Cons.prems(3-7)] show ?thesis .
  next
    case False
    with Cons.prems(1) v' obtain sd' where sd': "config ''setting'' = Some (MSetting (Some sd'))"
      by (auto simp: c' split: option.splits mval.splits)
    with Cons.prems(1) v' False have loop:
      "as_env_loop X svc cfg
         (env_vars_loop (setting_env_vars X svc sd' True) (stringify_value X sd' v') env) = Inr env'"
      by (simp add: c')
    show ?thesis
    proof (cases "c = c'")
      case True
      with Cons.prems(3,5) v' sd' have "v = v'" "sd = sd'" by (auto simp: c')
      with Cons.prems(6,7) have
        "key ev \<in> fst ` set (env_vars_loop (setting_env_vars X svc sd' True)
                               (stringify_value X sd' v') env)"
        by (auto simp: env_vars_loop_keys)
      with as_env_loop_mono [OF loop] show ?thesis by blast
    next
      case False
      with Cons.prems(2) have "c \<in> set cfg" by simp
      from Cons.IH [OF loop this Cons.prems(3-7)] show ?thesis .
    qed
  qed
qed

lemma as_env_loop_distinct:
  "as_env_loop X svc cfg env = Inr env' \<Longrightarrow> distinct (map fst env) \<Longrightarrow> distinct (map fst env')"
proof (induction cfg arbitrary: env)
  case Nil
  then show ?case by simp
next
  case (Cons c cfg)
  then show ?case
    by (cases c) (auto simp: env_vars_loop_distinct split: option.splits mval.splits if_splits)
qed

lemma config_loop_entries:
  "config_loop get pfx redacted source source_manager defs config svc = (Inr config', svc')
     \<Longrightarrow> c \<in> set config'
     \<Longrightarrow> c \<in> set config
         \<or> (\<exists>d \<in> set defs. \<exists>v md s1 s2.
               get (name d) redacted source (Some source_manager) (Some d) s1 = (Inr (v, md), s2)
               \<and> snd c = md(''value'' \<mapsto> MVal v))"
proof (induction defs arbitrary: config svc)
  case Nil
  then show ?case by simp
next
  case (Cons d defs)
  show ?case
  proof (cases "case pfx of Some p \<Rightarrow> p \<noteq> [] \<and> \<not> prefix p (name d) | None \<Rightarrow> False")
    case True
    with Cons.prems(1) have
      "config_loop get pfx redacted source source_manager defs config svc = (Inr config', svc')"
      by simp
    from Cons.IH [OF this Cons.prems(2)] have
      "c \<in> set config
         \<or> (\<exists>d \<in> set defs. \<exists>v md s1 s2.
               get (name d) redacted source (Some source_manager) (Some d) s1 = (Inr (v, md), s2)
               \<and> snd c = md(''value'' \<mapsto> MVal v))" .
    moreover have "set defs \<subseteq> set (d # defs)" by auto
    ultimately show ?thesis by blast
  next
    case False
    with Cons.prems(1) obtain v md svc1 k where
      g: "get (name d) redacted source (Some source_manager) (Some d) svc = (Inr (v, md), svc1)"
      and l: "config_loop get pfx redacted source source_manager defs
                (AList.update k (md(''value'' \<mapsto> MVal v)) config) svc1 = (Inr config', svc')"
      by (auto simp: Let_def split: prod.splits sum.splits)
    from Cons.IH [OF l Cons.prems(2)] show ?thesis
    proof
      assume "c \<in> set (AList.update k (md(''value'' \<mapsto> MVal v)) config)"
      with set_update_subset [of k "md(''value'' \<mapsto> MVal v)" config]
      have "c = (k, md(''value'' \<mapsto> MVal v)) \<or> c \<in> set config" by auto
      then show ?thesis
      proof
        assume "c = (k, md(''value'' \<mapsto> MVal v))"
        then have "snd c = md(''value'' \<mapsto> MVal v)" by simp
        with g have "\<exists>v md s1 s2.
               get (name d) redacted source (Some source_manager) (Some d) s1 = (Inr (v, md), s2)
               \<and> snd c = md(''value'' \<mapsto> MVal v)"
          by blast
        moreover have "d \<in> set (d # defs)" by simp
        ultimately show ?thesis by blast
      next
        assume "c \<in> set config"
        then show ?thesis by simp
      qed
    next
      assume "\<exists>d \<in> set defs. \<exists>v md s1 s2.
               get (name d) redacted source (Some source_manager) (Some d) s1 = (Inr (v, md), s2)
               \<and> snd c = md(''value'' \<mapsto> MVal v)"
      moreover have "set defs \<subseteq> set (d # defs)" by auto
      ultimately show ?thesis by blast
    qed
  qed
qed















lemma config_with_metadata_via_unfold:
  "config_with_metadata_via get pfx extras redacted source source_manager svc =
     config_loop get pfx redacted source
       (case source_manager of Some m \<Rightarrow> m | None \<Rightarrow> Manager source)
       (fst (definitions extras svc)) [] (snd (definitions extras svc))"
  by (simp add: config_with_metadata_via_def Let_def split: prod.splits)










section \<open>unredact removes the redacted items and nothing else\<close>

text \<open>
  C10. For every dictionary, \<^verbatim>\<open>unredact\<close> returns the items whose value is not the
  sentinel string \<^verbatim>\<open>"(redacted)"\<close>, each with its key and value unchanged: the result
  holds exactly those items, a key of the result is looked up to the value it had and a key
  whose value was the sentinel is gone. It is the identity on a dictionary with no sentinel
  value, and applying it twice is applying it once.
\<close>

theorem unredact_spec:
  "set (unredact vals) = {kv \<in> set vals. snd kv \<noteq> PStr REDACTED_VALUE}
   \<and> ((\<forall>kv \<in> set vals. snd kv \<noteq> PStr REDACTED_VALUE) \<longrightarrow> unredact vals = vals)
   \<and> unredact (unredact vals) = unredact vals
   \<and> (distinct (map fst vals) \<longrightarrow>
        distinct (map fst (unredact vals))
        \<and> (\<forall>k. map_of (unredact vals) k =
              (case map_of vals k of
                 None \<Rightarrow> None
               | Some v \<Rightarrow> if v = PStr REDACTED_VALUE then None else Some v)))"
proof (intro conjI impI allI)
  show "set (unredact vals) = {kv \<in> set vals. snd kv \<noteq> PStr REDACTED_VALUE}"
    by (auto simp: unredact_filter)
  show "unredact vals = vals" if "\<forall>kv \<in> set vals. snd kv \<noteq> PStr REDACTED_VALUE"
    using that by (simp add: unredact_filter filter_id_conv)
  show "unredact (unredact vals) = unredact vals"
    by (simp add: unredact_filter)
  show "distinct (map fst (unredact vals))" if "distinct (map fst vals)"
    using that by (simp add: unredact_filter distinct_map_filter)
  show "map_of (unredact vals) k =
          (case map_of vals k of
             None \<Rightarrow> None
           | Some v \<Rightarrow> if v = PStr REDACTED_VALUE then None else Some v)"
    if "distinct (map fst vals)" for k
    using that unfolding unredact_filter
  proof (induction vals)
    case Nil
    then show ?case by simp
  next
    case (Cons kv vals)
    then show ?case
      by (cases kv) (auto simp: map_of_eq_None_iff image_iff split: option.splits)
  qed
qed

theorem unredact_spec_witness:
  "unredact [(''user'', PStr ''me''), (''port'', PInt 5432)]
     = [(''user'', PStr ''me''), (''port'', PInt 5432)]
   \<and> map_of (unredact [(''user'', PStr ''me''), (''password'', PStr ''(redacted)'')]) ''password'' = None
   \<and> map_of (unredact [(''user'', PStr ''me''), (''password'', PStr ''(redacted)'')]) ''user'' = Some (PStr ''me'')"
  using unredact_spec [of "[(''user'', PStr ''me''), (''port'', PInt 5432)]"]
    unredact_spec [of "[(''user'', PStr ''me''), (''password'', PStr ''(redacted)'')]"]
  by (simp add: REDACTED_VALUE_def)

section \<open>Writing the sentinel is a no-op\<close>

text \<open>
  C1. For every path and every value: if the value passed to \<^verbatim>\<open>set_with_metadata\<close>
  equals the sentinel string \<^verbatim>\<open>"(redacted)"\<close>, the call returns \<^verbatim>\<open>None\<close> with
  metadata that holds \<^verbatim>\<open>redacted: True\<close>, the state of the stores is the one before
  the call, and the outcome is the same whatever the managers' \<^verbatim>\<open>set\<close> is: the
  manager's \<^verbatim>\<open>set\<close> is not invoked.
\<close>

theorem set_with_metadata_redacted:
  assumes "py_eq v (PStr REDACTED_VALUE)"
  shows "(\<exists>md svc'. set_with_metadata X path_arg v store_arg svc st = (Inr (PNone, md), svc', st)
            \<and> md ''redacted'' = Some (MVal (PBool True)))
         \<and> set_with_metadata (X\<lparr>mgr_set := f\<rparr>) path_arg v store_arg svc st
             = set_with_metadata X path_arg v store_arg svc st"
  using assms by (simp add: set_with_metadata_def Let_def split: prod.splits)

theorem set_with_metadata_redacted_witness:
  "fst (set_with_metadata log_collab (PathList [''db'', ''password'']) (PStr ''(redacted)'')
          (Some DOTENV) empty_service []) \<noteq> Inl StoreNotSupportedError
   \<and> snd (snd (set_with_metadata log_collab (PathList [''db'', ''password'']) (PStr ''(redacted)'')
          (Some DOTENV) empty_service [])) = []
   \<and> snd (snd (set_with_metadata log_collab (PathList [''db'', ''password'']) (PStr ''secret'')
          (Some DOTENV) empty_service [])) = [Manager DOTENV]"
proof -
  have h: "py_eq (PStr ''(redacted)'') (PStr REDACTED_VALUE)" by (simp add: REDACTED_VALUE_def)
  have "snd (snd (set_with_metadata log_collab (PathList [''db'', ''password'']) (PStr ''secret'')
          (Some DOTENV) empty_service [])) = [Manager DOTENV]"
    by (simp add: set_with_metadata_def Let_def log_collab_def REDACTED_VALUE_def
          store_or_default_def find_setting_catalog catalog_cases empty_service_def from_missing_def)
  moreover obtain md svc' where
    "set_with_metadata log_collab (PathList [''db'', ''password'']) (PStr ''(redacted)'')
          (Some DOTENV) empty_service [] = (Inr (PNone, md), svc', [])"
    using set_with_metadata_redacted [OF h, of log_collab "PathList [''db'', ''password'']"
        "Some DOTENV" empty_service "[]"]
    by blast
  ultimately show ?thesis by simp
qed

section \<open>The store of a write\<close>




section \<open>Names and aliases find the same definition\<close>



section \<open>A missing setting\<close>

text \<open>
  C6. \<^verbatim>\<open>find_setting\<close> raises the setting-missing error if and only if no definition of
  the catalog has the requested name as its name or among its aliases. On such a name
  \<^verbatim>\<open>get_with_metadata\<close>, called without a definition, does not fail for that: it goes on
  with no definition and returns what the manager's \<^verbatim>\<open>get\<close> returns, the value as it
  is, and the metadata with \<^verbatim>\<open>setting: None\<close> updated by the manager's metadata; it
  fails only when the manager's \<^verbatim>\<open>get\<close> does. Neither the cast nor the redaction takes
  part: the outcome is the same for any other casting function and for the other value of
  \<^verbatim>\<open>redacted\<close>.
\<close>

theorem find_setting_missing:
  "(fst (find_setting nm svc) = Inl (SettingMissingError nm)
      \<longleftrightarrow> \<not> (\<exists>d \<in> set (catalog svc). name d = nm \<or> nm \<in> set (aliases d)))
   \<and> (\<not> (\<exists>d \<in> set (catalog svc). name d = nm \<or> nm \<in> set (aliases d)) \<longrightarrow>
        get_with_metadata (Suc n) X st nm redacted source source_manager None svc =
          (case mgr_get X (case source_manager of Some m \<Rightarrow> m | None \<Rightarrow> Manager source)
                  nm None [] st of
             Inl e \<Rightarrow> (Inl e, svc\<lparr>setting_defs := Some (catalog svc)\<rparr>)
           | Inr (value, get_metadata) \<Rightarrow>
               (Inr (value, [''name'' \<mapsto> MVal (PStr nm), ''source'' \<mapsto> MStore source,
                             ''setting'' \<mapsto> MSetting None] ++ get_metadata),
                svc\<lparr>setting_defs := Some (catalog svc)\<rparr>))
        \<and> get_with_metadata (Suc n) (X\<lparr>cast_value := c\<rparr>) st nm (\<not> redacted) source
              source_manager None svc
            = get_with_metadata (Suc n) X st nm redacted source source_manager None svc)"
proof -
  have iff: "List.find (\<lambda>s. name s = nm \<or> nm \<in> set (aliases s)) (catalog svc) = None
               \<longleftrightarrow> \<not> (\<exists>d \<in> set (catalog svc). name d = nm \<or> nm \<in> set (aliases d))"
    by (auto simp: find_None_iff)
  have first: "fst (find_setting nm svc) = Inl (SettingMissingError nm)
      \<longleftrightarrow> \<not> (\<exists>d \<in> set (catalog svc). name d = nm \<or> nm \<in> set (aliases d))"
    unfolding iff [symmetric] by (simp add: find_setting_catalog split: option.splits)
  have second: "get_with_metadata (Suc n) Y st nm r source source_manager None svc =
          (case mgr_get Y (case source_manager of Some m \<Rightarrow> m | None \<Rightarrow> Manager source)
                  nm None [] st of
             Inl e \<Rightarrow> (Inl e, svc\<lparr>setting_defs := Some (catalog svc)\<rparr>)
           | Inr (value, get_metadata) \<Rightarrow>
               (Inr (value, [''name'' \<mapsto> MVal (PStr nm), ''source'' \<mapsto> MStore source,
                             ''setting'' \<mapsto> MSetting None] ++ get_metadata),
                svc\<lparr>setting_defs := Some (catalog svc)\<rparr>))"
    if "\<not> (\<exists>d \<in> set (catalog svc). name d = nm \<or> nm \<in> set (aliases d))"
    for Y :: "'a collab" and r
  proof -
    from that iff have "find_setting nm svc
        = (Inl (SettingMissingError nm), svc\<lparr>setting_defs := Some (catalog svc)\<rparr>)"
      by (simp add: find_setting_catalog definitions_catalog)
    then show ?thesis
      by (simp add: get_with_metadata_via_def lookup_value_def resolve_definition_def
            initial_metadata_def
            split: sum.splits prod.splits)
  qed
  show ?thesis
    using first second [of X redacted] second [of "X\<lparr>cast_value := c\<rparr>" "\<not> redacted"]
    by simp
qed

theorem find_setting_missing_witness:
  "fst (find_setting ''nope'' two_service) = Inl (SettingMissingError ''nope'')
   \<and> (case fst (get_with_metadata (Suc 0) log_collab [] ''nope'' True AUTO None None two_service) of
        Inr (v, md) \<Rightarrow> v = PNone \<and> md ''setting'' = Some (MSetting None)
      | Inl e \<Rightarrow> False)"
proof -
  have h: "\<not> (\<exists>d \<in> set (catalog two_service). name d = ''nope'' \<or> ''nope'' \<in> set (aliases d))"
    by (simp add: catalog_two_service)
  show ?thesis
    using find_setting_missing [of "''nope''" two_service 0 log_collab "[]" True AUTO None] h
    by (simp add: log_collab_def)
qed

section \<open>The catalog returned by definitions\<close>

text \<open>
  C8. On a service whose cache is empty, \<^verbatim>\<open>definitions()\<close> returns the declared
  definitions without those of kind \<^verbatim>\<open>hidden\<close>, unless the service shows hidden
  settings, followed by the synthesized definitions, which are named after the keys of the
  flattened YAML config that no declared definition is named after. The list is stored in
  the cache by the first call and later calls return the cached list, also when the
  declared definitions or the YAML config have changed since; \<^verbatim>\<open>extras=True\<close> keeps the
  extra settings of the list and \<^verbatim>\<open>extras=False\<close> the others.
\<close>

theorem definitions_spec:
  "(setting_defs svc = None \<longrightarrow>
      fst (definitions None svc)
        = filter (\<lambda>s. kind s \<noteq> Some ''hidden'' \<or> show_hidden svc) (declared_definitions svc)
          @ from_missing (declared_definitions svc) (flat_meltano_yml_config svc))
   \<and> map name (from_missing defs config) = filter (\<lambda>k. k \<notin> name ` set defs) (map fst config)
   \<and> fst (definitions (Some True) svc) = filter is_extra (fst (definitions None svc))
   \<and> fst (definitions (Some False) svc) = filter (\<lambda>s. \<not> is_extra s) (fst (definitions None svc))
   \<and> setting_defs (snd (definitions extras svc)) = Some (fst (definitions None svc))
   \<and> fst (definitions None
            ((snd (definitions extras svc))
               \<lparr>show_hidden := b, declared_definitions := ds, flat_meltano_yml_config := cfg\<rparr>))
       = fst (definitions None svc)
   \<and> snd (definitions extras' (snd (definitions extras svc))) = snd (definitions extras svc)"
proof -
  have "map name (from_missing defs config) = filter (\<lambda>k. k \<notin> name ` set defs) (map fst config)"
    by (induction config) (auto simp: from_missing_def)
  then show ?thesis
    by (simp add: definitions_catalog catalog_cases [of svc] catalog_cases [of "_\<lparr>setting_defs := _\<rparr>"]
          catalog_cases [of "_\<lparr>flat_meltano_yml_config := _\<rparr>"]
          split: option.splits)
qed

theorem definitions_spec_witness:
  "map name (fst (definitions None two_service))
     = [''username'', ''password'', ''_load_schema'', ''custom.key'']
   \<and> map name (fst (definitions (Some True) two_service)) = [''_load_schema'']
   \<and> map name (fst (definitions (Some False) two_service))
     = [''username'', ''password'', ''custom.key'']"
proof -
  have h: "setting_defs two_service = None" by (simp add: two_service_def)
  show ?thesis
    using definitions_spec [of two_service]
    by (simp add: h two_service_def from_missing_def)
qed

section \<open>The default override mappings\<close>

text \<open>
  C9 says that two services constructed without \<^verbatim>\<open>env_override\<close> and
  \<^verbatim>\<open>config_override\<close> have independent override mappings. The constructor does not
  provide that: both instances hold the one dictionary that was created for the default
  value, so an item set through the first instance is read through the second. Two
  instances constructed with dictionaries of their own are independent.
\<close>

theorem default_overrides_are_shared:
  "(case define_init empty_heap of
      (defaults, h) \<Rightarrow>
        env_override (init defaults ''one'' None None) = env_override (init defaults ''two'' None None)
        \<and> dict_get (env_override (init defaults ''two'' None None)) ''TAP_TOKEN'' h = None
        \<and> dict_get (env_override (init defaults ''two'' None None)) ''TAP_TOKEN''
             (dict_setitem (env_override (init defaults ''one'' None None)) ''TAP_TOKEN'' ''s3cret'' h)
           = Some ''s3cret''
        \<and> (case new_dict h of
             (a, h) \<Rightarrow>
               (case new_dict h of
                  (b, h) \<Rightarrow>
                    dict_get (env_override (init defaults ''two'' (Some b) None)) ''TAP_TOKEN''
                      (dict_setitem (env_override (init defaults ''one'' (Some a) None))
                         ''TAP_TOKEN'' ''s3cret'' h)
                    = None)))"
  by (simp add: define_init_def new_dict_def init_def dict_get_def dict_setitem_def empty_heap_def)

section \<open>Cast, then redaction\<close>




section \<open>The assembly of an object setting\<close>



section \<open>The environment of as_env\<close>

text \<open>
  C7. For every configuration, every item of the dictionary that \<^verbatim>\<open>as_env\<close> returns
  comes from a setting of \<^verbatim>\<open>config_with_metadata\<close> whose value is not \<^verbatim>\<open>None\<close> and
  from one of its environment variables that is not negated: the item's key is the key of
  that variable and its value is the definition's stringification of the setting's value.
  So a setting whose value is \<^verbatim>\<open>None\<close> and a negated variable contribute no item.
  Conversely every variable that is not negated, of every setting whose value is not
  \<^verbatim>\<open>None\<close>, is a key of the dictionary. The value of a setting is the one that
  \<^verbatim>\<open>get_with_metadata\<close> returned for a definition of the catalog.
\<close>

theorem as_env_entries:
  assumes "as_env n X st pfx extras redacted source source_manager svc = (Inr env, svc')"
  shows "\<exists>full_config.
           config_with_metadata n X st pfx extras redacted source source_manager svc
             = (Inr full_config, svc')
           \<and> (\<forall>kv \<in> set env. \<exists>c \<in> set full_config. \<exists>v sd ev.
                 snd c ''value'' = Some (MVal v) \<and> v \<noteq> PNone
                 \<and> snd c ''setting'' = Some (MSetting (Some sd))
                 \<and> ev \<in> set (setting_env_vars X svc' sd True) \<and> \<not> negated ev
                 \<and> key ev = fst kv \<and> snd kv = stringify_value X sd v)
           \<and> (\<forall>c \<in> set full_config. \<forall>v sd. \<forall>ev \<in> set (setting_env_vars X svc' sd True).
                 snd c ''value'' = Some (MVal v) \<and> v \<noteq> PNone
                 \<and> snd c ''setting'' = Some (MSetting (Some sd)) \<and> \<not> negated ev
                 \<longrightarrow> key ev \<in> fst ` set env)
           \<and> (\<forall>c \<in> set full_config. \<exists>d \<in> set (fst (definitions extras svc)). \<exists>v md s1 s2.
                 get_with_metadata n X st (name d) redacted source
                   (Some (case source_manager of Some m \<Rightarrow> m | None \<Rightarrow> Manager source))
                   (Some d) s1 = (Inr (v, md), s2)
                 \<and> snd c = md(''value'' \<mapsto> MVal v))
           \<and> distinct (map fst env)"
proof -
  from assms obtain full_config where
    cfg: "config_with_metadata n X st pfx extras redacted source source_manager svc
            = (Inr full_config, svc')"
    and loop: "as_env_loop X svc' full_config [] = Inr env"
    by (auto simp: as_env_def as_env_via_def config_with_metadata_def split: prod.splits sum.splits)
  have "\<exists>c \<in> set full_config. \<exists>v sd ev.
                 snd c ''value'' = Some (MVal v) \<and> v \<noteq> PNone
                 \<and> snd c ''setting'' = Some (MSetting (Some sd))
                 \<and> ev \<in> set (setting_env_vars X svc' sd True) \<and> \<not> negated ev
                 \<and> key ev = fst kv \<and> snd kv = stringify_value X sd v"
    if "kv \<in> set env" for kv
    using as_env_loop_entries [OF loop that] by simp
  moreover have "key ev \<in> fst ` set env"
    if "c \<in> set full_config" "ev \<in> set (setting_env_vars X svc' sd True)"
       "snd c ''value'' = Some (MVal v)" "v \<noteq> PNone"
       "snd c ''setting'' = Some (MSetting (Some sd))" "\<not> negated ev" for c v sd ev
    using as_env_loop_complete [OF loop that(1,3,4,5,2,6)] .
  moreover have "\<exists>d \<in> set (fst (definitions extras svc)). \<exists>v md s1 s2.
                 get_with_metadata n X st (name d) redacted source
                   (Some (case source_manager of Some m \<Rightarrow> m | None \<Rightarrow> Manager source))
                   (Some d) s1 = (Inr (v, md), s2)
                 \<and> snd c = md(''value'' \<mapsto> MVal v)"
    if "c \<in> set full_config" for c
  proof -
    from cfg have "config_loop (get_with_metadata n X st) pfx redacted source
                     (case source_manager of Some m \<Rightarrow> m | None \<Rightarrow> Manager source)
                     (fst (definitions extras svc)) [] (snd (definitions extras svc))
                   = (Inr full_config, svc')"
      by (simp add: config_with_metadata_def config_with_metadata_via_unfold)
    from config_loop_entries [OF this that] show ?thesis by simp
  qed
  moreover have "distinct (map fst env)"
    using as_env_loop_distinct [OF loop] by simp
  ultimately show ?thesis using cfg by blast
qed

theorem as_env_entries_witness:
  "fst (as_env (Suc (Suc 0)) yml_collab tap_yml None None False AUTO None tap_service)
     = Inr [(''TAP_username'', ''me''), (''GENERIC_username'', ''me''),
            (''TAP_secure'', ''true''), (''GENERIC_secure'', ''true''),
            (''TAP_db'', ''json''), (''GENERIC_db'', ''json''),
            (''TAP_db.host'', ''h1''), (''GENERIC_db.host'', ''h1''),
            (''TAP_db.port'', ''json''), (''GENERIC_db.port'', ''json''),
            (''TAP_database.host'', ''h2''), (''GENERIC_database.host'', ''h2''),
            (''TAP_database.name'', ''main''), (''GENERIC_database.name'', ''main'')]
   \<and> (\<exists>full_config.
         fst (config_with_metadata (Suc (Suc 0)) yml_collab tap_yml None None False AUTO None
                tap_service) = Inr full_config)"
proof -
  let ?env = "[(''TAP_username'', ''me''), (''GENERIC_username'', ''me''),
            (''TAP_secure'', ''true''), (''GENERIC_secure'', ''true''),
            (''TAP_db'', ''json''), (''GENERIC_db'', ''json''),
            (''TAP_db.host'', ''h1''), (''GENERIC_db.host'', ''h1''),
            (''TAP_db.port'', ''json''), (''GENERIC_db.port'', ''json''),
            (''TAP_database.host'', ''h2''), (''GENERIC_database.host'', ''h2''),
            (''TAP_database.name'', ''main''), (''GENERIC_database.name'', ''main'')]"
  let ?r = "as_env (Suc (Suc 0)) yml_collab tap_yml None None False AUTO None tap_service"
  let ?c = "config_with_metadata (Suc (Suc 0)) yml_collab tap_yml None None False AUTO None
              tap_service"
  have e: "fst ?r = Inr ?env"
    by code_simp
  then have "?r = (Inr ?env, snd ?r)"
    by (rule result_fst)
  from as_env_entries [OF this] obtain full_config where "?c = (Inr full_config, snd ?r)"
    by (elim exE conjE)
  then have "fst ?c = Inr full_config"
    by (rule arg_cong [where f = fst, THEN trans]) (rule fst_conv)
  then have "\<exists>full_config. fst ?c = Inr full_config" ..
  with e show ?thesis by (rule conjI)
qed

end
